theory Spec2Isabelle
  imports Complex_Main "HOL-Library.Word" "HOL-Library.Multiset"
begin

section \<open>The inference pipeline notebook\<close>

text \<open>
  The notebook \<^verbatim>\<open>tools/inference/inference_pipeline.ipynb\<close> is a sequence of cells over
  global variables. The cells that carry control flow are the sampling loop (the
  \<^verbatim>\<open>for i in trange(...)\<close> cell), the scoring cell and the ranking cell. Every model is
  reached through a library call; those calls are parameters of the embedding
  (the record \<open>collaborators\<close>), and a call that can raise returns a sum.
\<close>

subsection \<open>Errors\<close>

datatype py_error =
  ZeroDivisionError
  | PmapSizeError
  | ReshapeError
  | IndexError
  | GenerationError
  | DecodeError
  | ValueError
  | ScoreError

text \<open>The first error of a list of results, or all the values, in order.\<close>

fun sequence_results :: "('e + 'a) list \<Rightarrow> 'e + 'a list" where
  "sequence_results [] = Inr []"
| "sequence_results (Inl e # rs) = Inl e"
| "sequence_results (Inr x # rs) =
     (case sequence_results rs of Inl e \<Rightarrow> Inl e | Inr xs \<Rightarrow> Inr (x # xs))"

subsection \<open>Images\<close>

text \<open>
  A PIL image made by \<^verbatim>\<open>Image.fromarray\<close> from a \<^verbatim>\<open>uint8\<close> array of shape
  (height, width, channels): rows of pixels of channel bytes.
\<close>

type_synonym uint8 = "8 word"
type_synonym image = "uint8 list list list"

text \<open>
  The arrays hold \<^verbatim>\<open>float16\<close> values; the model has their finite values, as real
  numbers, and neither infinities nor NaN. \<^verbatim>\<open>x.clip(0.0, 1.0)\<close> on one element:
\<close>

definition clip :: "real \<Rightarrow> real \<Rightarrow> real \<Rightarrow> real" where
  "clip lo hi x = min (max x lo) hi"

text \<open>
  \<^verbatim>\<open>np.asarray(..., dtype=np.uint8)\<close> on one element: the conversion truncates towards
  zero and keeps the low eight bits.
\<close>

definition astype_uint8 :: "real \<Rightarrow> uint8" where
  "astype_uint8 x = word_of_int (if 0 \<le> x then \<lfloor>x\<rfloor> else \<lceil>x\<rceil>)"

text \<open>
  Cutting a flat array into consecutive rows of \<open>n\<close> elements, as a row-major
  \<^verbatim>\<open>reshape\<close> does along one axis.
\<close>

fun chunks :: "nat \<Rightarrow> 'a list \<Rightarrow> 'a list list" where
  "chunks n xs =
     (if n = 0 \<or> length xs < n then [] else take n xs # chunks n (drop n xs))"

declare chunks.simps [simp del]

text \<open>
  \<^verbatim>\<open>decoded_images.reshape((-1, 256, 256, 3))\<close> on the flat contents of the array: the
  reshape is refused unless the number of elements is a multiple of \<open>256 * 256 * 3\<close>.
\<close>

definition reshape_images :: "real list \<Rightarrow> py_error + real list list list list" where
  "reshape_images flat =
     (if length flat mod (256 * 256 * 3) = 0
      then Inr (map (\<lambda>im. map (chunks 3) (chunks (256 * 3) im)) (chunks (256 * 256 * 3) flat))
      else Inl ReshapeError)"

text \<open>
  Arithmetic on \<^verbatim>\<open>float16\<close> values rounds the exact result to the nearest
  \<^verbatim>\<open>float16\<close> value, a tie to the one with an even significand. The values are the
  multiples of a spacing that doubles from one binade to the next: \<open>1 / 2 ^ 24\<close>
  below \<open>1 / 2 ^ 13\<close> (the subnormal values and the first binade), then always the
  spacing \<open>s\<close> below \<open>2048 * s\<close>, up to the spacing \<open>32\<close> of the last binade. (Beyond
  the largest finite value the arithmetic gives an infinity, which the model does not
  have; the products below are at most \<open>255\<close>.)
\<close>

fun float16_spacing_from :: "nat \<Rightarrow> real \<Rightarrow> real \<Rightarrow> real" where
  "float16_spacing_from 0 s x = s"
| "float16_spacing_from (Suc n) s x =
     (if x < 2048 * s then s else float16_spacing_from n (2 * s) x)"

definition float16_spacing :: "real \<Rightarrow> real" where
  "float16_spacing x = float16_spacing_from 29 (1 / 2 ^ 24) \<bar>x\<bar>"

definition round_half_even :: "real \<Rightarrow> int" where
  "round_half_even q =
     (let f = \<lfloor>q\<rfloor>; r = q - of_int f
      in if r < 1 / 2 then f else if 1 / 2 < r then f + 1 else if even f then f else f + 1)"

definition float16_round :: "real \<Rightarrow> real" where
  "float16_round x = of_int (round_half_even (x / float16_spacing x)) * float16_spacing x"

definition float16_mul :: "real \<Rightarrow> real \<Rightarrow> real" where
  "float16_mul x y = float16_round (x * y)"

text \<open>
  \<^verbatim>\<open>Image.fromarray(np.asarray(decoded_img * 255, dtype=np.uint8))\<close>: the product is
  a \<^verbatim>\<open>float16\<close> product, rounded before the conversion to bytes.
\<close>

definition fromarray :: "real list list list \<Rightarrow> image" where
  "fromarray decoded_img = map (map (map (\<lambda>x. astype_uint8 (float16_mul x 255)))) decoded_img"

subsection \<open>Collaborators and globals\<close>

text \<open>
  \<open>random_split key num i\<close> is the \<open>i\<close>-th of the \<open>num\<close> keys of
  \<^verbatim>\<open>jax.random.split(key, num)\<close>. \<open>model_generate\<close> is \<^verbatim>\<open>model.generate(...).sequences\<close>
  on one device; the prompt batch is the singleton \<^verbatim>\<open>[prompt]\<close>, so a device holds
  one token sequence. \<open>decode_code\<close> is \<^verbatim>\<open>vqgan.decode_code\<close> on one device, with
  the flat contents of the array it returns. \<open>device_count\<close> and
  \<open>local_device_count\<close> are \<^verbatim>\<open>jax.device_count()\<close> and \<^verbatim>\<open>jax.local_device_count()\<close>.
\<close>

record ('k, 'p, 'w, 'v) collaborators =
  random_split :: "'k \<Rightarrow> nat \<Rightarrow> nat \<Rightarrow> 'k"
  model_generate ::
    "'p \<Rightarrow> 'k \<Rightarrow> 'w \<Rightarrow> int option \<Rightarrow> real option \<Rightarrow> real option \<Rightarrow> real \<Rightarrow> py_error + nat list"
  decode_code :: "nat list \<Rightarrow> 'v \<Rightarrow> py_error + real list"
  device_count :: nat
  local_device_count :: nat

text \<open>The arguments of one call of \<^verbatim>\<open>p_generate\<close>.\<close>

record ('k, 'p, 'w) generate_call =
  arg_tokenized_prompt :: "'p list"
  arg_key :: "'k list"
  arg_params :: "'w list"
  arg_top_k :: "int option"
  arg_top_p :: "real option"
  arg_temperature :: "real option"
  arg_condition_scale :: real

text \<open>
  The global variables the sampling loop reads and writes. \<open>generate_calls\<close> is not a
  variable of the notebook: it records the arguments of every call of \<^verbatim>\<open>p_generate\<close>,
  in order.
\<close>

record ('k, 'p, 'w, 'v) globals =
  key :: 'k
  tokenized_prompt :: "'p list"
  params :: "'w list"
  vqgan_params :: "'v list"
  n_predictions :: int
  gen_top_k :: "int option"
  gen_top_p :: "real option"
  temperature :: "real option"
  cond_scale :: real
  images :: "image list"
  generate_calls :: "('k, 'p, 'w) generate_call list"

text \<open>\<^verbatim>\<open>flax.jax_utils.replicate\<close>: one copy for each local device.\<close>

definition flax_replicate :: "('k, 'p, 'w, 'v) collaborators \<Rightarrow> 'a \<Rightarrow> 'a list" where
  "flax_replicate c x = replicate (local_device_count c) x"

text \<open>
  The cells before the loop: the key, the replicated prompt and parameters, the number
  of predictions and the generation parameters \<^verbatim>\<open>None, None, None, 3.0\<close>.
\<close>

definition notebook_setup ::
  "('k, 'p, 'w, 'v) collaborators \<Rightarrow> 'k \<Rightarrow> 'p \<Rightarrow> 'w \<Rightarrow> 'v \<Rightarrow> int \<Rightarrow> ('k, 'p, 'w, 'v) globals" where
  "notebook_setup c k tp w v n =
     \<lparr>key = k,
      tokenized_prompt = flax_replicate c tp,
      params = flax_replicate c w,
      vqgan_params = flax_replicate c v,
      n_predictions = n,
      gen_top_k = None,
      gen_top_p = None,
      temperature = None,
      cond_scale = 3,
      images = [],
      generate_calls = []\<rparr>"

subsection \<open>The device-parallel functions\<close>

text \<open>\<^verbatim>\<open>key, subkey = jax.random.split(key)\<close>\<close>

definition split_pair :: "('k, 'p, 'w, 'v) collaborators \<Rightarrow> 'k \<Rightarrow> 'k \<times> 'k" where
  "split_pair c k = (random_split c k 2 0, random_split c k 2 1)"

text \<open>\<^verbatim>\<open>shard_prng_key(subkey)\<close> is \<^verbatim>\<open>jax.random.split(subkey, num=jax.local_device_count())\<close>.\<close>

definition shard_prng_key :: "('k, 'p, 'w, 'v) collaborators \<Rightarrow> 'k \<Rightarrow> 'k list" where
  "shard_prng_key c subkey =
     map (random_split c subkey (local_device_count c)) [0..<local_device_count c]"

text \<open>
  \<^verbatim>\<open>jax.pmap\<close> runs the function once for each position of the leading axis of its
  mapped arguments, which must agree in size; the generation parameters are static,
  broadcast arguments.
\<close>

definition p_generate ::
  "('k, 'p, 'w, 'v) collaborators \<Rightarrow> 'p list \<Rightarrow> 'k list \<Rightarrow> 'w list \<Rightarrow>
   int option \<Rightarrow> real option \<Rightarrow> real option \<Rightarrow> real \<Rightarrow> py_error + nat list list" where
  "p_generate c tokenized_prompt' key' params' top_k top_p temperature' condition_scale =
     (if length tokenized_prompt' = length key' \<and> length key' = length params'
      then sequence_results
             (map (\<lambda>(tp, k, w). model_generate c tp k w top_k top_p temperature' condition_scale)
                (zip tokenized_prompt' (zip key' params')))
      else Inl PmapSizeError)"

definition p_decode ::
  "('k, 'p, 'w, 'v) collaborators \<Rightarrow> nat list list \<Rightarrow> 'v list \<Rightarrow> py_error + real list list" where
  "p_decode c indices params' =
     (if length indices = length params'
      then sequence_results (map (\<lambda>(ind, v). decode_code c ind v) (zip indices params'))
      else Inl PmapSizeError)"

text \<open>\<^verbatim>\<open>encoded_images.sequences[..., 1:]\<close> on one sequence: a slice never raises.\<close>

definition remove_bos :: "nat list \<Rightarrow> nat list" where
  "remove_bos sequence = drop 1 sequence"

subsection \<open>The sampling loop\<close>

text \<open>One pass through the body of the loop.\<close>

definition sampling_round ::
  "('k, 'p, 'w, 'v) collaborators \<Rightarrow> ('k, 'p, 'w, 'v) globals \<Rightarrow>
   py_error + ('k, 'p, 'w, 'v) globals" where
  "sampling_round c g =
     (let (key', subkey) = split_pair c (key g);
          call = \<lparr>arg_tokenized_prompt = tokenized_prompt g,
                  arg_key = shard_prng_key c subkey,
                  arg_params = params g,
                  arg_top_k = gen_top_k g,
                  arg_top_p = gen_top_p g,
                  arg_temperature = temperature g,
                  arg_condition_scale = cond_scale g\<rparr>;
          g1 = g\<lparr>key := key', generate_calls := generate_calls g @ [call]\<rparr>
      in case p_generate c (tokenized_prompt g) (shard_prng_key c subkey) (params g)
                (gen_top_k g) (gen_top_p g) (temperature g) (cond_scale g) of
           Inl e \<Rightarrow> Inl e
         | Inr encoded_images \<Rightarrow>
             (case p_decode c (map remove_bos encoded_images) (vqgan_params g) of
                Inl e \<Rightarrow> Inl e
              | Inr decoded \<Rightarrow>
                  (case reshape_images (map (clip 0 1) (concat decoded)) of
                     Inl e \<Rightarrow> Inl e
                   | Inr decoded_images \<Rightarrow>
                       Inr (g1\<lparr>images := images g1 @ map fromarray decoded_images\<rparr>))))"

text \<open>\<^verbatim>\<open>for i in range(r)\<close>: an error in a round ends the run.\<close>

fun for_rounds ::
  "('k, 'p, 'w, 'v) collaborators \<Rightarrow> nat \<Rightarrow> ('k, 'p, 'w, 'v) globals \<Rightarrow>
   py_error + ('k, 'p, 'w, 'v) globals" where
  "for_rounds c 0 g = Inr g"
| "for_rounds c (Suc r) g =
     (case sampling_round c g of Inl e \<Rightarrow> Inl e | Inr g' \<Rightarrow> for_rounds c r g')"

text \<open>
  The bound of the loop, \<^verbatim>\<open>max(n_predictions // jax.device_count(), 1)\<close>. Python's
  \<^verbatim>\<open>//\<close> raises on a zero divisor and rounds towards minus infinity, as \<open>div\<close> on
  \<open>int\<close> does for a positive divisor.
\<close>

definition num_rounds :: "int \<Rightarrow> nat \<Rightarrow> py_error + int" where
  "num_rounds n d = (if d = 0 then Inl ZeroDivisionError else Inr (max (n div int d) 1))"

text \<open>The cell: \<^verbatim>\<open>images = []\<close>, then the loop.\<close>

definition generate_images ::
  "('k, 'p, 'w, 'v) collaborators \<Rightarrow> ('k, 'p, 'w, 'v) globals \<Rightarrow>
   py_error + ('k, 'p, 'w, 'v) globals" where
  "generate_images c g =
     (case num_rounds (n_predictions g) (device_count c) of
        Inl e \<Rightarrow> Inl e
      | Inr r \<Rightarrow> for_rounds c (nat r) (g\<lparr>images := []\<rparr>))"

subsection \<open>The scoring cell\<close>

text \<open>
  The collaborators of the scoring cell. \<open>model_params\<close> is the attribute
  \<^verbatim>\<open>clip.params\<close> of the model object, whose read can raise (it raises \<^verbatim>\<open>ValueError\<close>
  for a model created with \<^verbatim>\<open>_do_init=False\<close>, as \<^verbatim>\<open>clip\<close> is); \<open>replicate_tree\<close> is
  \<^verbatim>\<open>replicate\<close> on the parameters of the scorer; \<open>clip_processor\<close> is the call of
  \<^verbatim>\<open>clip_processor\<close> on a list of texts and the images; \<open>shard\<close> is
  \<^verbatim>\<open>flax.training.common_utils.shard\<close>, which raises unless the leading axis of every
  array is a positive multiple of the number of local devices; \<open>pmap_clip\<close> is \<^verbatim>\<open>jax.pmap\<close> of the function
  that calls the model with \<^verbatim>\<open>params\<close> and returns \<^verbatim>\<open>logits_per_image\<close>, one row of
  scores for each device.
\<close>

record ('m, 'c, 'i) clip_collaborators =
  model_params :: "'m \<Rightarrow> py_error + 'c"
  replicate_tree :: "'c \<Rightarrow> 'c"
  clip_processor :: "string list \<Rightarrow> image list \<Rightarrow> 'i"
  shard :: "'i \<Rightarrow> py_error + 'i"
  pmap_clip :: "'m \<Rightarrow> 'i \<Rightarrow> 'c \<Rightarrow> py_error + real list list"

text \<open>The arguments of one call of \<^verbatim>\<open>p_clip\<close>.\<close>

record ('c, 'i) clip_call =
  arg_inputs :: 'i
  arg_clip_params :: 'c

text \<open>
  The global variables the scoring cell assigns; \<open>clip_calls\<close> records the arguments
  of every call of \<^verbatim>\<open>p_clip\<close>.
\<close>

record ('m, 'c, 'i) clip_globals =
  clip_model :: 'm
  clip_params :: 'c
  clip_inputs :: 'i
  logits :: "real list"
  clip_calls :: "('c, 'i) clip_call list"

definition p_clip ::
  "('m, 'c, 'i) clip_collaborators \<Rightarrow> 'm \<Rightarrow> 'i \<Rightarrow> 'c \<Rightarrow> py_error + real list list" where
  "p_clip e m inputs params' = pmap_clip e m inputs params'"

text \<open>
  The cell, from the pair \<^verbatim>\<open>clip, clip_params\<close> that \<^verbatim>\<open>FlaxCLIPModel.from_pretrained\<close>
  returned, with \<open>d\<close> for \<^verbatim>\<open>jax.device_count()\<close>:
  \<^verbatim>\<open>clip_params = replicate(clip_params)\<close>, \<^verbatim>\<open>clip_inputs = clip_processor(text=[prompt] * d, images=images, ...).data\<close>,
  \<^verbatim>\<open>logits = p_clip(shard(clip_inputs), clip.params)\<close>, \<^verbatim>\<open>logits = logits.squeeze().flatten()\<close>.
  The arguments of the call are evaluated from left to right: first the sharding, then
  the read of the attribute.
\<close>

definition score_images ::
  "('m, 'c, 'i) clip_collaborators \<Rightarrow> nat \<Rightarrow> 'm \<Rightarrow> 'c \<Rightarrow> string \<Rightarrow> image list \<Rightarrow>
   py_error + ('m, 'c, 'i) clip_globals" where
  "score_images e d m loaded_params prompt ims =
     (let replicated_params = replicate_tree e loaded_params;
          inputs = clip_processor e (replicate d prompt) ims
      in case shard e inputs of
           Inl err \<Rightarrow> Inl err
         | Inr sharded \<Rightarrow>
             (case model_params e m of
                Inl err \<Rightarrow> Inl err
              | Inr own_params \<Rightarrow>
                  (case p_clip e m sharded own_params of
                     Inl err \<Rightarrow> Inl err
                   | Inr rows \<Rightarrow>
                       Inr \<lparr>clip_model = m,
                            clip_params = replicated_params,
                            clip_inputs = inputs,
                            logits = concat rows,
                            clip_calls =
                              [\<lparr>arg_inputs = sharded, arg_clip_params = own_params\<rparr>]\<rparr>)))"

subsection \<open>The ranking cell\<close>

text \<open>
  \<^verbatim>\<open>logits\<close> is a JAX array, and \<^verbatim>\<open>argsort\<close> on a JAX array is a stable sort into
  ascending order: the indices of equal values keep their order.
\<close>

definition argsort :: "'a::linorder list \<Rightarrow> nat list" where
  "argsort a = sort_key (\<lambda>i. a ! i) [0..<length a]"

text \<open>\<^verbatim>\<open>logits.argsort()[::-1]\<close>\<close>

definition ranking :: "real list \<Rightarrow> nat list" where
  "ranking scores = rev (argsort scores)"

text \<open>
  The loop of the cell shows \<^verbatim>\<open>images[idx]\<close> and \<^verbatim>\<open>logits[idx]\<close> for each index, in
  order; an index past the end of \<^verbatim>\<open>images\<close> raises.
\<close>

definition rank_images :: "image list \<Rightarrow> real list \<Rightarrow> py_error + (image \<times> real) list" where
  "rank_images ims scores =
     sequence_results
       (map (\<lambda>idx. if idx < length ims then Inr (ims ! idx, scores ! idx) else Inl IndexError)
          (ranking scores))"

subsection \<open>Notions used to state the properties\<close>

text \<open>The value of \<^verbatim>\<open>key\<close> at the start of round \<open>j\<close> of a run that starts with \<open>k\<close>.\<close>

fun round_key :: "('k, 'p, 'w, 'v) collaborators \<Rightarrow> 'k \<Rightarrow> nat \<Rightarrow> 'k" where
  "round_key c k 0 = k"
| "round_key c k (Suc j) = round_key c (fst (split_pair c k)) j"

text \<open>The key that device \<open>i\<close> receives in round \<open>j\<close>.\<close>

definition device_key :: "('k, 'p, 'w, 'v) collaborators \<Rightarrow> 'k \<Rightarrow> nat \<Rightarrow> nat \<Rightarrow> 'k" where
  "device_key c k j i =
     random_split c (snd (split_pair c (round_key c k j))) (local_device_count c) i"

text \<open>The arguments of the call of \<^verbatim>\<open>p_generate\<close> in a round that starts in \<open>g\<close>.\<close>

definition call_of ::
  "('k, 'p, 'w, 'v) collaborators \<Rightarrow> ('k, 'p, 'w, 'v) globals \<Rightarrow> ('k, 'p, 'w) generate_call" where
  "call_of c g =
     \<lparr>arg_tokenized_prompt = tokenized_prompt g,
      arg_key = shard_prng_key c (snd (split_pair c (key g))),
      arg_params = params g,
      arg_top_k = gen_top_k g,
      arg_top_p = gen_top_p g,
      arg_temperature = temperature g,
      arg_condition_scale = cond_scale g\<rparr>"

text \<open>
  What device \<open>i\<close> decodes in a round when its key is \<open>k\<close>: generate, remove the
  first token, decode.
\<close>

definition device_decoded ::
  "('k, 'p, 'w, 'v) collaborators \<Rightarrow> ('k, 'p, 'w, 'v) globals \<Rightarrow> nat \<Rightarrow> 'k \<Rightarrow>
   py_error + real list" where
  "device_decoded c g i k =
     (case model_generate c (tokenized_prompt g ! i) k (params g ! i)
             (gen_top_k g) (gen_top_p g) (temperature g) (cond_scale g) of
        Inl e \<Rightarrow> Inl e
      | Inr sequence \<Rightarrow> decode_code c (remove_bos sequence) (vqgan_params g ! i))"

text \<open>
  What device \<open>i\<close> contributes to the images of that round: the decoded values,
  clipped, cut into 256 rows of 256 pixels of 3 channels, converted.
\<close>

definition device_image ::
  "('k, 'p, 'w, 'v) collaborators \<Rightarrow> ('k, 'p, 'w, 'v) globals \<Rightarrow> nat \<Rightarrow> 'k \<Rightarrow> py_error + image" where
  "device_image c g i k =
     (case device_decoded c g i k of
        Inl e \<Rightarrow> Inl e
      | Inr decoded \<Rightarrow>
          Inr (fromarray (map (chunks 3) (chunks (256 * 3) (map (clip 0 1) decoded)))))"

text \<open>
  Assumptions on the state and on the libraries: the prompt and the parameters have
  one copy for each local device (the replicate cells ran); whatever a device
  generates, what it decodes from it is one image of \<open>256 * 256 * 3\<close> values;
  generation and decoding succeed on every device.
\<close>

definition replicated :: "('k, 'p, 'w, 'v) collaborators \<Rightarrow> ('k, 'p, 'w, 'v) globals \<Rightarrow> bool" where
  "replicated c g \<longleftrightarrow>
     length (tokenized_prompt g) = local_device_count c \<and>
     length (params g) = local_device_count c \<and>
     length (vqgan_params g) = local_device_count c"

definition decoder_shape :: "('k, 'p, 'w, 'v) collaborators \<Rightarrow> ('k, 'p, 'w, 'v) globals \<Rightarrow> bool" where
  "decoder_shape c g \<longleftrightarrow>
     (\<forall>i k decoded. i < local_device_count c \<longrightarrow> device_decoded c g i k = Inr decoded \<longrightarrow>
        length decoded = 256 * 256 * 3)"

definition devices_succeed :: "('k, 'p, 'w, 'v) collaborators \<Rightarrow> ('k, 'p, 'w, 'v) globals \<Rightarrow> bool" where
  "devices_succeed c g \<longleftrightarrow>
     (\<forall>i k. i < local_device_count c \<longrightarrow> (\<exists>img. device_image c g i k = Inr img))"


subsection \<open>A small environment for concrete runs\<close>

text \<open>
  Stand-ins for the libraries, used only to run the cells on concrete inputs: a
  generator that returns a marker token followed by its key and the prompt, a decoder
  that returns an image of one grey value, four devices.
\<close>

definition example_split :: "nat \<Rightarrow> nat \<Rightarrow> nat \<Rightarrow> nat" where
  "example_split k num i = k * num + i + 1"

definition example_generate ::
  "nat list \<Rightarrow> nat \<Rightarrow> unit \<Rightarrow> int option \<Rightarrow> real option \<Rightarrow> real option \<Rightarrow> real \<Rightarrow> py_error + nat list" where
  "example_generate tp k w top_k top_p temperature' condition_scale = Inr (0 # k # tp)"

definition example_decode :: "nat list \<Rightarrow> unit \<Rightarrow> py_error + real list" where
  "example_decode indices v = Inr (replicate (256 * 256 * 3) (819 / 4096))"

definition example_collaborators :: "(nat, nat list, unit, unit) collaborators" where
  "example_collaborators =
     \<lparr>random_split = example_split,
      model_generate = example_generate,
      decode_code = example_decode,
      device_count = 4,
      local_device_count = 4\<rparr>"

definition example_globals :: "int \<Rightarrow> (nat, nat list, unit, unit) globals" where
  "example_globals n = notebook_setup example_collaborators 42 [5, 6, 7] () () n"

text \<open>
  Stand-ins for the scorer. A model object is \<open>None\<close> when it was created with
  \<^verbatim>\<open>_do_init=False\<close>, so that the read of its parameters raises, and \<open>Some p\<close> when it
  holds the parameters \<open>p\<close>. The inputs are the number of texts and the number of
  images, and sharding them on four devices raises unless both are positive multiples
  of four.
\<close>

definition example_params :: "nat option \<Rightarrow> py_error + nat" where
  "example_params m = (case m of None \<Rightarrow> Inl ValueError | Some p \<Rightarrow> Inr p)"

definition example_processor :: "string list \<Rightarrow> image list \<Rightarrow> nat \<times> nat" where
  "example_processor texts ims = (length texts, length ims)"

definition example_shard :: "nat \<times> nat \<Rightarrow> py_error + nat \<times> nat" where
  "example_shard inputs =
     (if 0 < fst inputs \<and> fst inputs mod 4 = 0 \<and> 0 < snd inputs \<and> snd inputs mod 4 = 0
      then Inr inputs else Inl ValueError)"

definition example_pmap_clip ::
  "nat option \<Rightarrow> nat \<times> nat \<Rightarrow> nat \<Rightarrow> py_error + real list list" where
  "example_pmap_clip m inputs params' = Inr [[real params', 2], [real (snd inputs), 2]]"

definition example_clip :: "(nat option, nat, nat \<times> nat) clip_collaborators" where
  "example_clip =
     \<lparr>model_params = example_params,
      replicate_tree = Suc,
      clip_processor = example_processor,
      shard = example_shard,
      pmap_clip = example_pmap_clip\<rparr>"

definition example_images :: "image list" where
  "example_images = [[[[1]]], [[[2]]], [[[3]]], [[[4]]]]"

section \<open>Lemmas\<close>

subsection \<open>Results and reshaping\<close>



lemma chunks_concat:
  "0 < n \<Longrightarrow> (\<And>xs. xs \<in> set xss \<Longrightarrow> length xs = n) \<Longrightarrow> chunks n (concat xss) = xss"
proof (induction xss)
  case Nil
  then show ?case by (simp add: chunks.simps [of n "[]"])
next
  case (Cons a xss)
  then have a: "length a = n" by simp
  have "chunks n (a @ concat xss) = a # chunks n (concat xss)"
    using a Cons.prems(1) by (subst chunks.simps) simp
  with Cons show ?case by simp
qed

lemma sequence_results_map_Inr: "sequence_results (map Inr xs) = Inr xs"
  by (induction xs) simp_all

lemma sequence_results_InrD: "sequence_results rs = Inr xs \<Longrightarrow> rs = map Inr xs"
proof (induction rs arbitrary: xs)
  case Nil
  then show ?case by simp
next
  case (Cons r rs)
  show ?case
  proof (cases r)
    case (Inl e)
    with Cons.prems show ?thesis by simp
  next
    case (Inr x)
    with Cons.prems obtain ys where ys: "sequence_results rs = Inr ys" and xs: "xs = x # ys"
      by (auto split: sum.splits)
    from Cons.IH [OF ys] xs Inr show ?thesis by simp
  qed
qed

subsection \<open>One round\<close>

lemma length_shard_prng_key [simp]: "length (shard_prng_key c k) = local_device_count c"
  by (simp add: shard_prng_key_def)

lemma nth_shard_prng_key:
  "i < local_device_count c \<Longrightarrow> shard_prng_key c k ! i = random_split c k (local_device_count c) i"
  by (simp add: shard_prng_key_def)

lemma p_generate_InrD:
  assumes "p_generate c tps ks ws a b t s = Inr enc"
  shows "length tps = length ks" and "length ws = length ks" and "length enc = length ks"
    and "\<And>i. i < length ks \<Longrightarrow> model_generate c (tps ! i) (ks ! i) (ws ! i) a b t s = Inr (enc ! i)"
proof -
  let ?f = "\<lambda>(tp, k, w). model_generate c tp k w a b t s"
  from assms have len: "length tps = length ks" "length ks = length ws"
    and seq: "sequence_results (map ?f (zip tps (zip ks ws))) = Inr enc"
    by (auto simp: p_generate_def split: if_splits)
  from sequence_results_InrD [OF seq] have m: "map ?f (zip tps (zip ks ws)) = map Inr enc" .
  from len show "length tps = length ks" "length ws = length ks" by simp_all
  from arg_cong [OF m, of length] len show l: "length enc = length ks" by simp
  fix i assume i: "i < length ks"
  from arg_cong [OF m, of "\<lambda>l. l ! i"] i len l
  show "model_generate c (tps ! i) (ks ! i) (ws ! i) a b t s = Inr (enc ! i)" by simp
qed

lemma p_decode_InrD:
  assumes "p_decode c inds vs = Inr dec"
  shows "length vs = length inds" and "length dec = length inds"
    and "\<And>i. i < length inds \<Longrightarrow> decode_code c (inds ! i) (vs ! i) = Inr (dec ! i)"
proof -
  let ?f = "\<lambda>(ind, v). decode_code c ind v"
  from assms have len: "length inds = length vs"
    and seq: "sequence_results (map ?f (zip inds vs)) = Inr dec"
    by (auto simp: p_decode_def split: if_splits)
  from sequence_results_InrD [OF seq] have m: "map ?f (zip inds vs) = map Inr dec" .
  from len show "length vs = length inds" by simp
  from arg_cong [OF m, of length] len show l: "length dec = length inds" by simp
  fix i assume i: "i < length inds"
  from arg_cong [OF m, of "\<lambda>l. l ! i"] i len l
  show "decode_code c (inds ! i) (vs ! i) = Inr (dec ! i)" by simp
qed

lemma reshape_images_concat:
  assumes "\<And>px. px \<in> set dec \<Longrightarrow> length px = 256 * 256 * 3"
  shows "reshape_images (map f (concat dec)) =
           Inr (map (\<lambda>px. map (chunks 3) (chunks (256 * 3) (map f px))) dec)"
proof -
  have len: "length (concat dec) = length dec * (256 * 256 * 3)"
    using assms by (induction dec) simp_all
  have "chunks (256 * 256 * 3) (concat (map (map f) dec)) = map (map f) dec"
    by (rule chunks_concat) (use assms in auto)
  moreover have "length (map f (concat dec)) mod (256 * 256 * 3) = 0"
    using len by simp
  ultimately show ?thesis
    unfolding reshape_images_def by (simp only: map_concat map_map comp_def) simp
qed

lemma sampling_round_InrD:
  assumes rep: "replicated c g" and shape: "decoder_shape c g"
    and run: "sampling_round c g = Inr g'"
  obtains new where
    "g' = g\<lparr>key := fst (split_pair c (key g)),
            generate_calls := generate_calls g @ [call_of c g],
            images := images g @ new\<rparr>"
    "length new = local_device_count c"
    "\<And>i. i < local_device_count c \<Longrightarrow>
       device_image c g i (random_split c (snd (split_pair c (key g))) (local_device_count c) i)
         = Inr (new ! i)"
proof -
  let ?d = "local_device_count c"
  let ?sub = "snd (split_pair c (key g))"
  from run obtain enc dec dimgs where
    gen: "p_generate c (tokenized_prompt g) (shard_prng_key c ?sub) (params g)
            (gen_top_k g) (gen_top_p g) (temperature g) (cond_scale g) = Inr enc"
    and dcd: "p_decode c (map remove_bos enc) (vqgan_params g) = Inr dec"
    and rsh: "reshape_images (map (clip 0 1) (concat dec)) = Inr dimgs"
    and g': "g' = g\<lparr>key := fst (split_pair c (key g)),
                    generate_calls := generate_calls g @ [call_of c g],
                    images := images g @ map fromarray dimgs\<rparr>"
    by (auto simp: sampling_round_def Let_def split_pair_def call_of_def split: sum.splits)
  note G = p_generate_InrD [OF gen]
  note D = p_decode_InrD [OF dcd]
  have lenc: "length enc = ?d" using G(3) by simp
  have ldec: "length dec = ?d" using D(2) lenc by simp
  have dec_i: "device_decoded c g i (random_split c ?sub ?d i) = Inr (dec ! i)"
    if "i < ?d" for i
  proof -
    have "model_generate c (tokenized_prompt g ! i) (random_split c ?sub ?d i) (params g ! i)
            (gen_top_k g) (gen_top_p g) (temperature g) (cond_scale g) = Inr (enc ! i)"
      using G(4) [of i] that by (simp add: nth_shard_prng_key)
    moreover have "decode_code c (remove_bos (enc ! i)) (vqgan_params g ! i) = Inr (dec ! i)"
      using D(3) [of i] that lenc by simp
    ultimately show ?thesis by (simp add: device_decoded_def)
  qed
  have px: "length px = 256 * 256 * 3" if "px \<in> set dec" for px
  proof -
    from that obtain i where "i < length dec" "dec ! i = px" by (auto simp: in_set_conv_nth)
    with dec_i [of i] ldec shape show ?thesis by (auto simp: decoder_shape_def)
  qed
  from rsh reshape_images_concat [of dec "clip 0 1", OF px]
  have dimgs: "dimgs = map (\<lambda>px. map (chunks 3) (chunks (256 * 3) (map (clip 0 1) px))) dec"
    by simp
  show thesis
  proof (rule that [of "map fromarray dimgs"])
    show "g' = g\<lparr>key := fst (split_pair c (key g)),
            generate_calls := generate_calls g @ [call_of c g],
            images := images g @ map fromarray dimgs\<rparr>" by (rule g')
    show "length (map fromarray dimgs) = ?d" using dimgs ldec by simp
    fix i assume i: "i < ?d"
    with dec_i [OF i] ldec dimgs
    show "device_image c g i (random_split c ?sub ?d i) = Inr (map fromarray dimgs ! i)"
      by (simp add: device_image_def)
  qed
qed

subsection \<open>The loop\<close>

lemma device_decoded_frame [simp]:
  "device_decoded c (g\<lparr>key := k\<rparr>) = device_decoded c g"
  "device_decoded c (g\<lparr>generate_calls := cs\<rparr>) = device_decoded c g"
  "device_decoded c (g\<lparr>images := ims\<rparr>) = device_decoded c g"
  by (simp_all add: device_decoded_def fun_eq_iff cong: sum.case_cong)

lemma device_image_frame [simp]:
  "device_image c (g\<lparr>key := k\<rparr>) = device_image c g"
  "device_image c (g\<lparr>generate_calls := cs\<rparr>) = device_image c g"
  "device_image c (g\<lparr>images := ims\<rparr>) = device_image c g"
  by (simp_all add: device_image_def fun_eq_iff)

lemma decoder_shape_frame [simp]:
  "decoder_shape c (g\<lparr>key := k\<rparr>) = decoder_shape c g"
  "decoder_shape c (g\<lparr>generate_calls := cs\<rparr>) = decoder_shape c g"
  "decoder_shape c (g\<lparr>images := ims\<rparr>) = decoder_shape c g"
  by (simp_all add: decoder_shape_def)

lemma replicated_frame [simp]:
  "replicated c (g\<lparr>key := k\<rparr>) = replicated c g"
  "replicated c (g\<lparr>generate_calls := cs\<rparr>) = replicated c g"
  "replicated c (g\<lparr>images := ims\<rparr>) = replicated c g"
  by (simp_all add: replicated_def)

lemma devices_succeed_frame [simp]:
  "devices_succeed c (g\<lparr>key := k\<rparr>) = devices_succeed c g"
  "devices_succeed c (g\<lparr>generate_calls := cs\<rparr>) = devices_succeed c g"
  "devices_succeed c (g\<lparr>images := ims\<rparr>) = devices_succeed c g"
  by (simp_all add: devices_succeed_def)

lemma for_rounds_InrD:
  assumes "replicated c g" and "decoder_shape c g" and "for_rounds c r g = Inr g'"
  shows "\<exists>new. g' = g\<lparr>key := round_key c (key g) r,
                      generate_calls := generate_calls g @
                        map (\<lambda>j. call_of c (g\<lparr>key := round_key c (key g) j\<rparr>)) [0..<r],
                      images := images g @ new\<rparr> \<and>
           length new = r * local_device_count c \<and>
           (\<forall>j<r. \<forall>i<local_device_count c.
              device_image c g i (device_key c (key g) j i) = Inr (new ! (j * local_device_count c + i)))"
  using assms
proof (induction r arbitrary: g)
  case 0
  then show ?case by simp
next
  case (Suc r)
  let ?d = "local_device_count c"
  from Suc.prems(3) obtain g1 where r1: "sampling_round c g = Inr g1"
    and rest: "for_rounds c r g1 = Inr g'"
    by (auto split: sum.splits)
  from sampling_round_InrD [OF Suc.prems(1,2) r1] obtain new1 where
    g1: "g1 = g\<lparr>key := fst (split_pair c (key g)),
                 generate_calls := generate_calls g @ [call_of c g],
                 images := images g @ new1\<rparr>"
    and l1: "length new1 = ?d"
    and d1: "\<And>i. i < ?d \<Longrightarrow>
       device_image c g i (random_split c (snd (split_pair c (key g))) ?d i) = Inr (new1 ! i)"
    by blast
  have rep1: "replicated c g1" and shape1: "decoder_shape c g1"
    using Suc.prems(1,2) by (simp_all add: g1)
  from Suc.IH [OF rep1 shape1 rest] obtain new2 where
    g': "g' = g1\<lparr>key := round_key c (key g1) r,
                 generate_calls := generate_calls g1 @
                   map (\<lambda>j. call_of c (g1\<lparr>key := round_key c (key g1) j\<rparr>)) [0..<r],
                 images := images g1 @ new2\<rparr>"
    and l2: "length new2 = r * ?d"
    and d2: "\<And>j i. j < r \<Longrightarrow> i < ?d \<Longrightarrow>
       device_image c g1 i (device_key c (key g1) j i) = Inr (new2 ! (j * ?d + i))"
    by blast
  have calls: "map (\<lambda>j. call_of c (g\<lparr>key := round_key c (key g) j\<rparr>)) [0..<Suc r] =
      call_of c g # map (\<lambda>j. call_of c (g1\<lparr>key := round_key c (key g1) j\<rparr>)) [0..<r]"
    by (simp add: g1 call_of_def upt_conv_Cons map_Suc_upt [symmetric] del: upt_Suc)
  have k1: "device_key c (key g1) j i = device_key c (key g) (Suc j) i" for j i
    by (simp add: device_key_def g1)
  have "g' = g\<lparr>key := round_key c (key g) (Suc r),
                generate_calls := generate_calls g @
                  map (\<lambda>j. call_of c (g\<lparr>key := round_key c (key g) j\<rparr>)) [0..<Suc r],
                images := images g @ (new1 @ new2)\<rparr>"
    unfolding calls by (simp add: g' g1)
  moreover have "length (new1 @ new2) = Suc r * ?d" using l1 l2 by simp
  moreover have "device_image c g i (device_key c (key g) j i) = Inr ((new1 @ new2) ! (j * ?d + i))"
    if j: "j < Suc r" and i: "i < ?d" for j i
  proof (cases j)
    case 0
    with d1 [OF i] i l1 show ?thesis by (simp add: device_key_def nth_append)
  next
    case (Suc j')
    with j have "j' < r" by simp
    from d2 [OF this i, unfolded k1] show ?thesis
      by (simp add: Suc g1 nth_append l1)
  qed
  ultimately show ?case by blast
qed

lemma sampling_round_succeeds:
  assumes rep: "replicated c g" and shape: "decoder_shape c g" and ok: "devices_succeed c g"
  shows "\<exists>g'. sampling_round c g = Inr g'"
proof -
  let ?d = "local_device_count c"
  let ?ks = "shard_prng_key c (snd (split_pair c (key g)))"
  define gen where "gen = (\<lambda>(tp, k, w). model_generate c tp k w
      (gen_top_k g) (gen_top_p g) (temperature g) (cond_scale g))"
  define seqs where "seqs = map (\<lambda>i. projr (gen (tokenized_prompt g ! i, ?ks ! i, params g ! i))) [0..<?d]"
  define dec where "dec = map (\<lambda>i. projr (decode_code c (remove_bos (seqs ! i)) (vqgan_params g ! i))) [0..<?d]"
  have both: "gen (tokenized_prompt g ! i, ?ks ! i, params g ! i) = Inr (seqs ! i) \<and>
      decode_code c (remove_bos (seqs ! i)) (vqgan_params g ! i) = Inr (dec ! i) \<and>
      device_decoded c g i (?ks ! i) = Inr (dec ! i)" if "i < ?d" for i
  proof -
    from ok that obtain img where "device_image c g i (?ks ! i) = Inr img"
      unfolding devices_succeed_def by blast
    then show ?thesis using that
      by (auto simp: device_image_def device_decoded_def gen_def seqs_def dec_def
          split: sum.splits)
  qed
  have "map gen (zip (tokenized_prompt g) (zip ?ks (params g))) = map Inr seqs"
    using rep both by (auto simp: list_eq_iff_nth_eq replicated_def seqs_def)
  then have gen: "p_generate c (tokenized_prompt g) ?ks (params g)
      (gen_top_k g) (gen_top_p g) (temperature g) (cond_scale g) = Inr seqs"
    using rep by (simp add: p_generate_def replicated_def gen_def sequence_results_map_Inr)
  have "map (\<lambda>(ind, v). decode_code c ind v) (zip (map remove_bos seqs) (vqgan_params g)) = map Inr dec"
    using rep both by (auto simp: list_eq_iff_nth_eq replicated_def seqs_def dec_def)
  then have dcd: "p_decode c (map remove_bos seqs) (vqgan_params g) = Inr dec"
    using rep by (simp add: p_decode_def replicated_def seqs_def sequence_results_map_Inr)
  have px: "length px = 256 * 256 * 3" if "px \<in> set dec" for px
  proof -
    from that obtain i where "i < ?d" "dec ! i = px" by (auto simp: in_set_conv_nth dec_def)
    with both [of i] shape show ?thesis by (auto simp: decoder_shape_def)
  qed
  from gen dcd reshape_images_concat [of dec "clip 0 1", OF px] show ?thesis
    by (simp add: sampling_round_def Let_def split_pair_def)
qed

lemma for_rounds_succeeds:
  assumes "replicated c g" and "decoder_shape c g" and "devices_succeed c g"
  shows "\<exists>g'. for_rounds c r g = Inr g'"
  using assms
proof (induction r arbitrary: g)
  case 0
  then show ?case by simp
next
  case (Suc r)
  from sampling_round_succeeds [OF Suc.prems] obtain g1 where r1: "sampling_round c g = Inr g1"
    by blast
  from sampling_round_InrD [OF Suc.prems(1,2) r1] obtain new where
    "g1 = g\<lparr>key := fst (split_pair c (key g)),
             generate_calls := generate_calls g @ [call_of c g],
             images := images g @ new\<rparr>"
    by blast
  with Suc.prems have "replicated c g1" "decoder_shape c g1" "devices_succeed c g1" by simp_all
  from Suc.IH [OF this] r1 show ?case by simp
qed

subsection \<open>What a run leaves unchanged, and how much it produces\<close>

lemma sampling_round_frame:
  assumes "sampling_round c g = Inr g'"
  shows "\<exists>enc dec dimgs.
           p_generate c (tokenized_prompt g) (shard_prng_key c (snd (split_pair c (key g))))
             (params g) (gen_top_k g) (gen_top_p g) (temperature g) (cond_scale g) = Inr enc \<and>
           p_decode c (map remove_bos enc) (vqgan_params g) = Inr dec \<and>
           reshape_images (map (clip 0 1) (concat dec)) = Inr dimgs \<and>
           g' = g\<lparr>key := fst (split_pair c (key g)),
                   generate_calls := generate_calls g @ [call_of c g],
                   images := images g @ map fromarray dimgs\<rparr>"
  using assms
  by (auto simp: sampling_round_def Let_def split_pair_def call_of_def split: sum.splits)

lemma for_rounds_frame:
  assumes "for_rounds c r g = Inr g'"
  shows "\<exists>new. g' = g\<lparr>key := round_key c (key g) r,
                      generate_calls := generate_calls g @
                        map (\<lambda>j. call_of c (g\<lparr>key := round_key c (key g) j\<rparr>)) [0..<r],
                      images := images g @ new\<rparr>"
  using assms
proof (induction r arbitrary: g)
  case 0
  then show ?case by (auto intro: exI [of _ "[]"])
next
  case (Suc r)
  from Suc.prems obtain g1 where r1: "sampling_round c g = Inr g1"
    and rest: "for_rounds c r g1 = Inr g'"
    by (auto split: sum.splits)
  from sampling_round_frame [OF r1] obtain new1 where
    g1: "g1 = g\<lparr>key := fst (split_pair c (key g)),
                 generate_calls := generate_calls g @ [call_of c g],
                 images := images g @ new1\<rparr>"
    by blast
  from Suc.IH [OF rest] obtain new2 where
    g': "g' = g1\<lparr>key := round_key c (key g1) r,
                 generate_calls := generate_calls g1 @
                   map (\<lambda>j. call_of c (g1\<lparr>key := round_key c (key g1) j\<rparr>)) [0..<r],
                 images := images g1 @ new2\<rparr>"
    by blast
  have calls: "map (\<lambda>j. call_of c (g\<lparr>key := round_key c (key g) j\<rparr>)) [0..<Suc r] =
      call_of c g # map (\<lambda>j. call_of c (g1\<lparr>key := round_key c (key g1) j\<rparr>)) [0..<r]"
    by (simp add: g1 call_of_def upt_conv_Cons map_Suc_upt [symmetric] del: upt_Suc)
  have "g' = g\<lparr>key := round_key c (key g) (Suc r),
                generate_calls := generate_calls g @
                  map (\<lambda>j. call_of c (g\<lparr>key := round_key c (key g) j\<rparr>)) [0..<Suc r],
                images := images g @ (new1 @ new2)\<rparr>"
    unfolding calls by (simp add: g' g1)
  then show ?case by blast
qed

lemma generate_images_count:
  assumes rep: "replicated c g" and shape: "decoder_shape c g" and ok: "devices_succeed c g"
    and d: "0 < device_count c"
  shows "\<exists>g'. generate_images c g = Inr g' \<and>
           length (generate_calls g') =
             length (generate_calls g) + nat (max (n_predictions g div int (device_count c)) 1) \<and>
           length (images g') =
             nat (max (n_predictions g div int (device_count c)) 1) * local_device_count c"
proof -
  let ?r = "nat (max (n_predictions g div int (device_count c)) 1)"
  let ?g = "g\<lparr>images := []\<rparr>"
  from rep shape ok have rep': "replicated c ?g" and shape': "decoder_shape c ?g"
    and ok': "devices_succeed c ?g" by simp_all
  from for_rounds_succeeds [OF rep' shape' ok'] obtain g' where run: "for_rounds c ?r ?g = Inr g'"
    by blast
  from for_rounds_InrD [OF rep' shape' run] obtain new where
    "g' = ?g\<lparr>key := round_key c (key ?g) ?r,
              generate_calls := generate_calls ?g @
                map (\<lambda>j. call_of c (?g\<lparr>key := round_key c (key ?g) j\<rparr>)) [0..<?r],
              images := images ?g @ new\<rparr>"
    and "length new = ?r * local_device_count c"
    by blast
  then have "length (generate_calls g') = length (generate_calls g) + ?r"
    and "length (images g') = ?r * local_device_count c"
    by simp_all
  with run d show ?thesis
    by (simp add: generate_images_def num_rounds_def)
qed

lemma max_div_eq_ceiling:
  fixes n d :: int
  assumes "0 < n" "0 < d"
  shows "(max (n div d) 1 = \<lceil>real_of_int n / real_of_int d\<rceil>) = (d dvd n \<or> n < d)"
proof -
  have c: "\<lceil>real_of_int n / real_of_int d\<rceil> = - (- n div d)"
    by (rule ceiling_divide_eq_div)
  show ?thesis
  proof (cases "n mod d = 0")
    case True
    then have dv: "d dvd n" by auto
    with assms have "d \<le> n" by (simp add: zdvd_imp_le)
    with assms have "0 < n div d" by (simp add: pos_imp_zdiv_pos_iff)
    then have "1 \<le> n div d" by simp
    moreover from True assms have "- (- n div d) = n div d"
      by (simp add: zdiv_zminus1_eq_if)
    ultimately show ?thesis using dv c by simp
  next
    case False
    then have nd: "\<not> d dvd n" by (simp add: dvd_eq_mod_eq_0)
    from False assms have e: "- (- n div d) = n div d + 1"
      by (simp add: zdiv_zminus1_eq_if)
    show ?thesis
    proof (cases "n < d")
      case True
      with assms have "n div d = 0" by simp
      with e c True show ?thesis by simp
    next
      case False
      with assms have "0 < n div d" by (simp add: pos_imp_zdiv_pos_iff)
      then have "1 \<le> n div d" by simp
      with e c nd False show ?thesis by simp
    qed
  qed
qed

subsection \<open>Conversion to bytes\<close>









lemma clip_unit: "0 \<le> clip 0 1 x \<and> clip 0 1 x \<le> 1"
  by (simp add: clip_def)





subsection \<open>The ranking loop\<close>

lemma rank_images_same_length:
  assumes "length ims = length scores"
  shows "rank_images ims scores = Inr (map (\<lambda>idx. (ims ! idx, scores ! idx)) (ranking scores))"
proof -
  have "set (ranking scores) = {0..<length scores}"
    by (simp add: ranking_def argsort_def)
  then have eq: "map (\<lambda>idx. if idx < length ims then Inr (ims ! idx, scores ! idx) else Inl IndexError)
      (ranking scores) = map Inr (map (\<lambda>idx. (ims ! idx, scores ! idx)) (ranking scores))"
    using assms by auto
  show ?thesis
    unfolding rank_images_def eq by (rule sequence_results_map_Inr)
qed

subsection \<open>The example environment\<close>

lemma example_replicated: "replicated example_collaborators (example_globals n)"
  by (simp add: replicated_def example_globals_def notebook_setup_def flax_replicate_def)

lemma example_decoder_shape: "decoder_shape example_collaborators (example_globals n)"
  by (simp add: decoder_shape_def device_decoded_def example_collaborators_def
      example_generate_def example_decode_def)

lemma example_devices_succeed: "devices_succeed example_collaborators (example_globals n)"
  by (simp add: devices_succeed_def device_image_def device_decoded_def
      example_collaborators_def example_generate_def example_decode_def)

section \<open>The claims\<close>

subsection \<open>C1: rounds and images of a run\<close>

text \<open>
  C1, as the code has it. For \<open>n > 0\<close> predictions on \<open>d > 0\<close> devices (one process,
  so that the local devices are all the devices), with a decoder that returns one
  image for each sequence and library calls that succeed, the loop runs
  \<open>max (n div d) 1\<close> rounds, one call of the generator in each, and leaves
  \<open>max (n div d) 1 * d\<close> images. That number of rounds is \<open>\<lceil>n / d\<rceil>\<close> exactly when
  \<open>d\<close> divides \<open>n\<close> or \<open>n < d\<close>.
\<close>

theorem rounds_and_images:
  assumes "0 < n_predictions g" and "0 < device_count c"
    and "local_device_count c = device_count c"
    and "replicated c g" and "decoder_shape c g" and "devices_succeed c g"
  shows "\<exists>g'. generate_images c g = Inr g' \<and>
           length (generate_calls g') =
             length (generate_calls g) + nat (max (n_predictions g div int (device_count c)) 1) \<and>
           length (images g') =
             nat (max (n_predictions g div int (device_count c)) 1) * device_count c \<and>
           ((max (n_predictions g div int (device_count c)) 1 =
               \<lceil>real_of_int (n_predictions g) / real (device_count c)\<rceil>) =
            (int (device_count c) dvd n_predictions g \<or> n_predictions g < int (device_count c)))"
proof -
  from assms(1,2) have "(max (n_predictions g div int (device_count c)) 1 =
      \<lceil>real_of_int (n_predictions g) / real_of_int (int (device_count c))\<rceil>) =
      (int (device_count c) dvd n_predictions g \<or> n_predictions g < int (device_count c))"
    by (intro max_div_eq_ceiling) simp_all
  with generate_images_count [OF assms(4,5,6,2)] assms(3) show ?thesis by simp
qed

text \<open>The hypotheses of C1 hold for nine predictions in the example environment: two rounds, eight images.\<close>

theorem rounds_and_images_witness:
  "0 < n_predictions (example_globals 9) \<and> 0 < device_count example_collaborators \<and>
   local_device_count example_collaborators = device_count example_collaborators \<and>
   replicated example_collaborators (example_globals 9) \<and>
   decoder_shape example_collaborators (example_globals 9) \<and>
   devices_succeed example_collaborators (example_globals 9) \<and>
   (\<exists>g'. generate_images example_collaborators (example_globals 9) = Inr g' \<and>
      length (generate_calls g') = 2 \<and> length (images g') = 8)"
proof -
  have n: "0 < n_predictions (example_globals 9)"
    by (simp add: example_globals_def notebook_setup_def)
  have d: "0 < device_count example_collaborators"
    and l: "local_device_count example_collaborators = device_count example_collaborators"
    by (simp_all add: example_collaborators_def)
  from rounds_and_images [OF n d l example_replicated example_decoder_shape example_devices_succeed]
  obtain g' where "generate_images example_collaborators (example_globals 9) = Inr g'"
    and "length (generate_calls g') = length (generate_calls (example_globals 9)) +
           nat (max (n_predictions (example_globals 9) div int (device_count example_collaborators)) 1)"
    and "length (images g') =
           nat (max (n_predictions (example_globals 9) div int (device_count example_collaborators)) 1) *
           device_count example_collaborators"
    by blast
  then have "generate_images example_collaborators (example_globals 9) = Inr g' \<and>
      length (generate_calls g') = 2 \<and> length (images g') = 8"
    by (simp add: example_globals_def notebook_setup_def example_collaborators_def)
  with n d l example_replicated example_decoder_shape example_devices_succeed
  show ?thesis by blast
qed

text \<open>
  C1 as stated, with \<open>\<lceil>n / d\<rceil>\<close> rounds, fails for five predictions on four devices:
  the bound of the loop is \<open>max (5 div 4) 1 = 1\<close>, the run makes one call of the
  generator and leaves four images, where \<open>\<lceil>5 / 4\<rceil> = 2\<close> rounds would leave eight.
\<close>

theorem ceil_rounds_counterexample:
  "num_rounds 5 4 = Inr 1 \<and>
   \<not> isl (generate_images example_collaborators (example_globals 5)) \<and>
   length (generate_calls (projr (generate_images example_collaborators (example_globals 5)))) = 1 \<and>
   length (images (projr (generate_images example_collaborators (example_globals 5)))) = 4 \<and>
   \<lceil>(5::real) / 4\<rceil> = 2 \<and> \<lceil>(5::real) / 4\<rceil> * 4 = 8"
proof -
  have d: "0 < device_count example_collaborators"
    by (simp add: example_collaborators_def)
  from generate_images_count [OF example_replicated example_decoder_shape example_devices_succeed d, of 5]
  obtain g' where "generate_images example_collaborators (example_globals 5) = Inr g'"
    and "length (generate_calls g') = 1" and "length (images g') = 4"
    by (auto simp: example_globals_def notebook_setup_def example_collaborators_def)
  moreover have "\<lceil>(5::real) / 4\<rceil> = 2" by (simp add: ceiling_eq_iff)
  moreover have "num_rounds 5 4 = Inr 1" by (simp add: num_rounds_def)
  ultimately show ?thesis by simp
qed

subsection \<open>C2: the order of the ranking\<close>

text \<open>
  C2, as the code has it. \<^verbatim>\<open>logits.argsort()[::-1]\<close> returns every index once, in an order
  in which the scores never increase; among the indices of one score the order is
  the reverse of the order of production, so of two images with equal score the one
  produced later comes first.
\<close>

theorem ranking_descending_ties_reversed:
  "mset (ranking l) = mset [0..<length l] \<and>
   sorted_wrt (\<lambda>i j. l ! j \<le> l ! i) (ranking l) \<and>
   (\<forall>s. filter (\<lambda>i. l ! i = s) (ranking l) = rev (filter (\<lambda>i. l ! i = s) [0..<length l]))"
proof (intro conjI allI)
  show "mset (ranking l) = mset [0..<length l]"
    by (simp add: ranking_def argsort_def)
  have "sorted (map (\<lambda>i. l ! i) (argsort l))"
    by (simp add: argsort_def)
  then have "sorted_wrt (\<lambda>i j. l ! i \<le> l ! j) (argsort l)"
    by (simp add: sorted_map)
  then show "sorted_wrt (\<lambda>i j. l ! j \<le> l ! i) (ranking l)"
    by (simp add: ranking_def sorted_wrt_rev)
  fix s
  show "filter (\<lambda>i. l ! i = s) (ranking l) = rev (filter (\<lambda>i. l ! i = s) [0..<length l])"
    by (simp add: ranking_def argsort_def rev_filter [symmetric] sort_key_stable)
qed

text \<open>
  C2 as stated, with ties in the order of production and scores strictly descending,
  fails for the scores \<open>3, 5, 3\<close>: images 0 and 2 have the same score, and image 2,
  produced later, is ranked before image 0.
\<close>

theorem ranking_ties_counterexample:
  "ranking [3, 5, 3] = [1, 2, 0]"
  by (simp add: ranking_def argsort_def upt_conv_Cons)

subsection \<open>C3: removing the first token\<close>

text \<open>
  C3, as the code has it. The slice \<^verbatim>\<open>[..., 1:]\<close> removes index 0 of whatever sequence
  it is given and keeps the other tokens in order, so the result is one token shorter
  (and an empty sequence stays empty); it checks no length and raises nothing, so on
  an already stripped sequence it removes one more token.
\<close>

theorem remove_bos_no_check:
  "remove_bos (bos # rest) = rest \<and>
   length (remove_bos s) = length s - 1 \<and>
   remove_bos (remove_bos (bos # t # rest)) = rest"
  by (simp add: remove_bos_def)

text \<open>
  C3 as stated, with a stripped sequence rejected, fails for the sequence \<open>0, 7, 9\<close>:
  the second application returns \<open>9\<close> alone, the token \<open>7\<close> is gone, and nothing is raised.
\<close>

theorem remove_bos_twice_counterexample:
  "remove_bos [0, 7, 9] = [7, 9] \<and> remove_bos (remove_bos [0, 7, 9]) = [9]"
  by (simp add: remove_bos_def)

subsection \<open>C5: the images of a round\<close>



subsection \<open>C6: one prediction on four devices\<close>

text \<open>
  C6. With \<open>n_predictions = 1\<close> and four devices the bound of the loop is one: the run
  makes exactly one call of the generator and leaves exactly four images.
\<close>

theorem one_prediction_four_devices:
  assumes "n_predictions g = 1" and "device_count c = 4" and "local_device_count c = 4"
    and "replicated c g" and "decoder_shape c g" and "devices_succeed c g"
  shows "num_rounds (n_predictions g) (device_count c) = Inr 1 \<and>
         (\<exists>g'. generate_images c g = Inr g' \<and>
            length (generate_calls g') = length (generate_calls g) + 1 \<and>
            length (images g') = 4)"
proof -
  from assms(2) have d: "0 < device_count c" by simp
  from generate_images_count [OF assms(4,5,6) d] assms(1,2,3) show ?thesis
    by (simp add: num_rounds_def)
qed

text \<open>The hypotheses of C6 hold in the example environment.\<close>

theorem one_prediction_four_devices_witness:
  "n_predictions (example_globals 1) = 1 \<and> device_count example_collaborators = 4 \<and>
   local_device_count example_collaborators = 4 \<and>
   replicated example_collaborators (example_globals 1) \<and>
   decoder_shape example_collaborators (example_globals 1) \<and>
   devices_succeed example_collaborators (example_globals 1) \<and>
   num_rounds 1 4 = Inr 1 \<and>
   (\<exists>g'. generate_images example_collaborators (example_globals 1) = Inr g' \<and>
      length (generate_calls g') = 1 \<and> length (images g') = 4)"
proof -
  have n: "n_predictions (example_globals 1) = 1"
    by (simp add: example_globals_def notebook_setup_def)
  have d: "device_count example_collaborators = 4"
    and l: "local_device_count example_collaborators = 4"
    by (simp_all add: example_collaborators_def)
  have c: "generate_calls (example_globals 1) = []"
    by (simp add: example_globals_def notebook_setup_def)
  from one_prediction_four_devices
    [OF n d l example_replicated example_decoder_shape example_devices_succeed]
  have "num_rounds 1 4 = Inr 1 \<and>
    (\<exists>g'. generate_images example_collaborators (example_globals 1) = Inr g' \<and>
      length (generate_calls g') = 1 \<and> length (images g') = 4)"
    by (simp add: n d c)
  with n d l example_replicated example_decoder_shape example_devices_succeed
  show ?thesis by blast
qed

subsection \<open>C8: the parameters of the scoring call\<close>

text \<open>
  C8. The scoring call takes its parameters from the attribute \<^verbatim>\<open>clip.params\<close> of the
  model object and never from the variable \<^verbatim>\<open>clip_params\<close>. Whatever the loader returned
  and however it was replicated, the cell ends in the same way, with the same error
  or with the same scores and the same call. The call expression first shards the
  inputs, then reads the attribute: if sharding raises, or if sharding succeeds and
  the read raises (as it does for the model of the notebook, created with
  \<^verbatim>\<open>_do_init=False\<close>), the cell ends with that error and \<^verbatim>\<open>p_clip\<close> is not called; if the
  read returns parameters, the outcome of the cell is that of \<^verbatim>\<open>p_clip\<close> on the sharded
  inputs and exactly those parameters. When the cell completes, \<^verbatim>\<open>clip_params\<close> holds the
  replicated parameters of the loader, which no call has read.
\<close>

theorem scoring_uses_model_attribute:
  "(\<forall>loaded' r.
      map_sum id (\<lambda>s. (logits s, clip_calls s))
        (score_images (e\<lparr>replicate_tree := r\<rparr>) d m loaded' prompt ims) =
      map_sum id (\<lambda>s. (logits s, clip_calls s)) (score_images e d m loaded prompt ims)) \<and>
   (\<forall>err. shard e (clip_processor e (replicate d prompt) ims) = Inl err \<longrightarrow>
      score_images e d m loaded prompt ims = Inl err) \<and>
   (\<forall>sharded err. shard e (clip_processor e (replicate d prompt) ims) = Inr sharded \<longrightarrow>
      model_params e m = Inl err \<longrightarrow>
      score_images e d m loaded prompt ims = Inl err) \<and>
   (\<forall>sharded own. shard e (clip_processor e (replicate d prompt) ims) = Inr sharded \<longrightarrow>
      model_params e m = Inr own \<longrightarrow>
      map_sum id (\<lambda>s. (logits s, clip_calls s)) (score_images e d m loaded prompt ims) =
      map_sum id (\<lambda>rows. (concat rows, [\<lparr>arg_inputs = sharded, arg_clip_params = own\<rparr>]))
        (p_clip e m sharded own)) \<and>
   (\<forall>s. score_images e d m loaded prompt ims = Inr s \<longrightarrow>
      clip_params s = replicate_tree e loaded \<and>
      (\<exists>sharded own. shard e (clip_processor e (replicate d prompt) ims) = Inr sharded \<and>
         model_params e m = Inr own \<and>
         clip_calls s = [\<lparr>arg_inputs = sharded, arg_clip_params = own\<rparr>]))"
  by (auto simp: score_images_def Let_def p_clip_def split: sum.splits)

text \<open>
  Four images on four devices in the example: sharding succeeds. For the model created
  without parameters the read raises and the cell ends with \<^verbatim>\<open>ValueError\<close>; for a model
  that holds the parameters 8 the call receives 8, whatever the loader returned.
\<close>

theorem scoring_uses_model_attribute_witness:
  "shard example_clip (clip_processor example_clip (replicate 4 ''sunset'') example_images) =
     Inr (4, 4) \<and>
   model_params example_clip None = Inl ValueError \<and>
   score_images example_clip 4 None 3 ''sunset'' example_images = Inl ValueError \<and>
   model_params example_clip (Some 8) = Inr 8 \<and>
   map_sum id (\<lambda>s. (logits s, clip_calls s))
     (score_images example_clip 4 (Some 8) 3 ''sunset'' example_images) =
     Inr ([8, 2, 4, 2], [\<lparr>arg_inputs = (4, 4), arg_clip_params = 8\<rparr>]) \<and>
   map_sum id (\<lambda>s. (logits s, clip_calls s))
     (score_images (example_clip\<lparr>replicate_tree := id\<rparr>) 4 (Some 8) 99 ''sunset'' example_images) =
     Inr ([8, 2, 4, 2], [\<lparr>arg_inputs = (4, 4), arg_clip_params = 8\<rparr>])"
proof -
  let ?e = example_clip
  have sh: "shard ?e (clip_processor ?e (replicate 4 ''sunset'') example_images) = Inr (4, 4)"
    by (simp add: example_clip_def example_processor_def example_shard_def example_images_def)
  have none: "model_params ?e None = Inl ValueError"
    and some: "model_params ?e (Some 8) = Inr 8"
    by (simp_all add: example_clip_def example_params_def)
  have call: "p_clip ?e (Some 8) (4, 4) 8 = Inr [[8, 2], [4, 2]]"
    by (simp add: p_clip_def example_clip_def example_pmap_clip_def)
  note none_inst = scoring_uses_model_attribute
      [where e = example_clip and d = 4 and m = None and loaded = 3 and prompt = "''sunset''"
        and ims = example_images]
  note some_inst = scoring_uses_model_attribute
      [where e = example_clip and d = 4 and m = "Some 8" and loaded = 3 and prompt = "''sunset''"
        and ims = example_images]
  from none_inst sh none
  have a: "score_images ?e 4 None 3 ''sunset'' example_images = Inl ValueError"
    by blast
  from some_inst sh some
  have "map_sum id (\<lambda>s. (logits s, clip_calls s))
      (score_images ?e 4 (Some 8) 3 ''sunset'' example_images) =
      map_sum id (\<lambda>rows. (concat rows, [\<lparr>arg_inputs = (4, 4), arg_clip_params = 8\<rparr>]))
        (p_clip ?e (Some 8) (4, 4) 8)"
    by blast
  then have b: "map_sum id (\<lambda>s. (logits s, clip_calls s))
      (score_images ?e 4 (Some 8) 3 ''sunset'' example_images) =
      Inr ([8, 2, 4, 2], [\<lparr>arg_inputs = (4, 4), arg_clip_params = 8\<rparr>])"
    by (simp add: call)
  from some_inst
  have "map_sum id (\<lambda>s. (logits s, clip_calls s))
      (score_images (?e\<lparr>replicate_tree := id\<rparr>) 4 (Some 8) 99 ''sunset'' example_images) =
      map_sum id (\<lambda>s. (logits s, clip_calls s))
        (score_images ?e 4 (Some 8) 3 ''sunset'' example_images)"
    by blast
  with b have c: "map_sum id (\<lambda>s. (logits s, clip_calls s))
      (score_images (?e\<lparr>replicate_tree := id\<rparr>) 4 (Some 8) 99 ''sunset'' example_images) =
      Inr ([8, 2, 4, 2], [\<lparr>arg_inputs = (4, 4), arg_clip_params = 8\<rparr>])"
    by simp
  from sh none some a b c show ?thesis by blast
qed

subsection \<open>C9: what a round appends\<close>

text \<open>
  C9. With the prompt and the parameters replicated, a decoder that returns one image
  for each sequence and one process: a completed round appends exactly
  \<open>device_count\<close> images to the images it found; after \<open>r\<close> completed rounds the
  images found at the start are an unchanged prefix, \<open>r * device_count\<close> images
  follow them, and the image at position \<open>j * device_count + i\<close> of these is the one
  that device \<open>i\<close> made in round \<open>j\<close>.
\<close>

theorem rounds_append_in_order:
  assumes "replicated c g" and "decoder_shape c g"
    and "local_device_count c = device_count c"
  shows "(sampling_round c g = Inr h \<longrightarrow>
            (\<exists>new. images h = images g @ new \<and> length new = device_count c)) \<and>
         (for_rounds c r g = Inr g' \<longrightarrow>
            take (length (images g)) (images g') = images g \<and>
            length (images g') = length (images g) + r * device_count c \<and>
            (\<forall>j<r. \<forall>i<device_count c.
               device_image c g i (device_key c (key g) j i) =
                 Inr (images g' ! (length (images g) + j * device_count c + i))))"
proof (intro conjI impI)
  assume "sampling_round c g = Inr h"
  from sampling_round_InrD [OF assms(1,2) this] obtain new where
    "h = g\<lparr>key := fst (split_pair c (key g)),
           generate_calls := generate_calls g @ [call_of c g],
           images := images g @ new\<rparr>"
    and "length new = local_device_count c"
    by blast
  then have "images h = images g @ new \<and> length new = device_count c"
    using assms(3) by simp
  then show "\<exists>new. images h = images g @ new \<and> length new = device_count c" ..
next
  assume run: "for_rounds c r g = Inr g'"
  from for_rounds_InrD [OF assms(1,2) run] obtain new where
    g': "g' = g\<lparr>key := round_key c (key g) r,
                 generate_calls := generate_calls g @
                   map (\<lambda>j. call_of c (g\<lparr>key := round_key c (key g) j\<rparr>)) [0..<r],
                 images := images g @ new\<rparr>"
    and len: "length new = r * local_device_count c"
    and dev: "\<And>j i. j < r \<Longrightarrow> i < local_device_count c \<Longrightarrow>
       device_image c g i (device_key c (key g) j i) = Inr (new ! (j * local_device_count c + i))"
    by blast
  from g' have im: "images g' = images g @ new" by simp
  show "take (length (images g)) (images g') = images g" by (simp add: im)
  show "length (images g') = length (images g) + r * device_count c"
    using len assms(3) by (simp add: im)
  show "\<forall>j<r. \<forall>i<device_count c.
      device_image c g i (device_key c (key g) j i) =
        Inr (images g' ! (length (images g) + j * device_count c + i))"
    using dev assms(3) by (simp add: im nth_append add.assoc)
qed

text \<open>
  In the example environment a round leaves four images and two rounds leave eight;
  image 6 is the one of device 2 in round 1.
\<close>

theorem rounds_append_in_order_witness:
  "replicated example_collaborators (example_globals 8) \<and>
   decoder_shape example_collaborators (example_globals 8) \<and>
   local_device_count example_collaborators = device_count example_collaborators \<and>
   (\<exists>h g'. sampling_round example_collaborators (example_globals 8) = Inr h \<and>
      length (images h) = 4 \<and>
      for_rounds example_collaborators 2 (example_globals 8) = Inr g' \<and>
      length (images g') = 8 \<and>
      device_image example_collaborators (example_globals 8) 2
        (device_key example_collaborators 42 1 2) = Inr (images g' ! 6))"
proof -
  let ?c = example_collaborators and ?g = "example_globals 8"
  have l: "local_device_count ?c = device_count ?c"
    by (simp add: example_collaborators_def)
  have d: "device_count ?c = 4"
    by (simp add: example_collaborators_def)
  have g: "images ?g = []" "key ?g = 42"
    by (simp_all add: example_globals_def notebook_setup_def)
  from sampling_round_succeeds [OF example_replicated example_decoder_shape example_devices_succeed]
  obtain h where h: "sampling_round ?c ?g = Inr h" by blast
  from for_rounds_succeeds [OF example_replicated example_decoder_shape example_devices_succeed]
  obtain g' where g': "for_rounds ?c 2 ?g = Inr g'" by blast
  note inst = rounds_append_in_order [OF example_replicated [of 8] example_decoder_shape l, of h 2 g']
  from inst h obtain new where "images h = images ?g @ new" "length new = device_count ?c"
    by blast
  then have a: "length (images h) = 4" by (simp add: g d)
  from inst g' have b: "length (images g') = 8"
    and c: "\<forall>j<2. \<forall>i<device_count ?c.
       device_image ?c ?g i (device_key ?c (key ?g) j i) =
         Inr (images g' ! (length (images ?g) + j * device_count ?c + i))"
    by (simp_all add: g d)
  from c have "device_image ?c ?g 2 (device_key ?c 42 1 2) = Inr (images g' ! 6)"
    by (simp add: g d)
  with h g' a b l example_replicated example_decoder_shape show ?thesis by blast
qed

subsection \<open>C10: the arguments of the generator\<close>

text \<open>
  C10. In a completed run of the notebook every call of \<^verbatim>\<open>p_generate\<close> receives the same
  replicated prompt, the same replicated parameters and the generation parameters
  \<^verbatim>\<open>None, None, None, 3.0\<close>; the keys are the only argument that depends on the round:
  the call of round \<open>j\<close> receives the device keys split from the key of round \<open>j\<close>.
\<close>

theorem generator_arguments_fixed:
  assumes "generate_images c (notebook_setup c k tp w v n) = Inr g'"
  shows "(\<forall>call\<in>set (generate_calls g').
            arg_tokenized_prompt call = flax_replicate c tp \<and>
            arg_params call = flax_replicate c w \<and>
            arg_top_k call = None \<and> arg_top_p call = None \<and>
            arg_temperature call = None \<and> arg_condition_scale call = 3) \<and>
         map arg_key (generate_calls g') =
           map (\<lambda>j. shard_prng_key c (snd (split_pair c (round_key c k j))))
             [0..<length (generate_calls g')]"
proof -
  let ?g = "(notebook_setup c k tp w v n)\<lparr>images := []\<rparr>"
  from assms obtain r where run: "for_rounds c r ?g = Inr g'"
    by (auto simp: generate_images_def split: sum.splits)
  from for_rounds_frame [OF run] obtain new where
    "g' = ?g\<lparr>key := round_key c (key ?g) r,
              generate_calls := generate_calls ?g @
                map (\<lambda>j. call_of c (?g\<lparr>key := round_key c (key ?g) j\<rparr>)) [0..<r],
              images := images ?g @ new\<rparr>"
    by blast
  then have calls: "generate_calls g' =
      map (\<lambda>j. call_of c (?g\<lparr>key := round_key c k j\<rparr>)) [0..<r]"
    by (simp add: notebook_setup_def)
  show ?thesis
    unfolding calls by (auto simp: call_of_def notebook_setup_def)
qed

text \<open>The two calls of a run of eight predictions in the example environment agree in these arguments.\<close>

theorem generator_arguments_fixed_witness:
  "\<exists>g'. generate_images example_collaborators (example_globals 8) = Inr g' \<and>
     length (generate_calls g') = 2 \<and>
     arg_tokenized_prompt (generate_calls g' ! 0) = arg_tokenized_prompt (generate_calls g' ! 1) \<and>
     arg_params (generate_calls g' ! 0) = arg_params (generate_calls g' ! 1) \<and>
     arg_top_k (generate_calls g' ! 1) = None \<and> arg_top_p (generate_calls g' ! 1) = None \<and>
     arg_temperature (generate_calls g' ! 1) = None \<and>
     arg_condition_scale (generate_calls g' ! 1) = 3"
proof -
  have d: "0 < device_count example_collaborators"
    by (simp add: example_collaborators_def)
  from generate_images_count [OF example_replicated example_decoder_shape example_devices_succeed d, of 8]
  obtain g' where run: "generate_images example_collaborators (example_globals 8) = Inr g'"
    and len: "length (generate_calls g') = 2"
    by (auto simp: example_globals_def notebook_setup_def example_collaborators_def)
  from len have "generate_calls g' ! 0 \<in> set (generate_calls g')"
    and "generate_calls g' ! 1 \<in> set (generate_calls g')"
    by simp_all
  with generator_arguments_fixed [OF run [unfolded example_globals_def]] run len
  show ?thesis by (intro exI [of _ g']) simp
qed

end
